theory Spec2Isabelle
  imports Main "HOL-Library.Word"
begin

section \<open>Python values used by icylister2.py\<close>

text \<open>
  The exceptions the modelled code can raise. \<open>RuntimeError\<close> is the one raised by hand in
  \<open>__init__\<close> when no \<open>icy-metaint\<close> header was seen; the others come from built-ins:
  \<open>ValueError\<close> from \<open>int(value)\<close>, \<open>IndexError\<close> from \<open>current_value[0]\<close>,
  \<open>AttributeError\<close> from a method call on \<open>None\<close>, \<open>UnicodeDecodeError\<close> from
  \<open>bytes.decode\<close>. The code defines no exception class of its own.
\<close>

datatype error = RuntimeError | ValueError | IndexError | AttributeError | UnicodeDecodeError

type_synonym byte = "8 word"

text \<open>
  A decoded \<open>str\<close> is a list of Unicode code points: Windows-1252 maps some bytes beyond
  255 (0x80 is U+20AC), so eight-bit characters are not enough. \<open>ustr\<close> writes an ASCII
  literal as such a list.
\<close>

type_synonym ustring = "nat list"

definition ustr :: "string \<Rightarrow> ustring" where
  "ustr s = map of_char s"

text \<open>
  A \<open>dict\<close> keeps insertion order; assigning to a key that is present replaces its value in
  place, assigning to a new key appends it.
\<close>

type_synonym dict = "(ustring \<times> ustring) list"

fun dict_setitem :: "dict \<Rightarrow> ustring \<Rightarrow> ustring \<Rightarrow> dict" where
  "dict_setitem [] k v = [(k, v)]"
| "dict_setitem ((k', v') # d) k v =
     (if k' = k then (k', v) # d else (k', v') # dict_setitem d k v)"

section \<open>parse_icy_metadata\<close>

text \<open>
  The local variables of the loop. The three delimiters are \<open>=\<close> (61), \<open>;\<close> (59) and the
  single quote (39).
\<close>

record pstate =
  metadata :: dict
  current_tag :: ustring
  current_value :: ustring
  reading_tag :: bool

definition initial :: pstate where
  "initial = \<lparr>metadata = [], current_tag = [], current_value = [], reading_tag = True\<rparr>"

text \<open>
  \<open>current_value[0]\<close> raises IndexError on the empty string, before anything is stored;
  \<open>current_value[1:-1]\<close> drops the first and the last character (of a one-character string
  it leaves nothing).
\<close>

definition unquote :: "ustring \<Rightarrow> error + ustring" where
  "unquote v =
     (case v of
        [] \<Rightarrow> Inl IndexError
      | c # cs \<Rightarrow> if c = 39 \<and> last v = 39 then Inr (butlast cs) else Inr v)"

text \<open>One iteration of the body of \<open>for char in data_string\<close>.\<close>

definition parse_step :: "nat \<Rightarrow> pstate \<Rightarrow> error + pstate" where
  "parse_step char st =
     (if reading_tag st then
        (if char = 61 then Inr (st\<lparr>reading_tag := False\<rparr>)
         else Inr (st\<lparr>current_tag := current_tag st @ [char]\<rparr>))
      else
        (if char = 59 then
           (case unquote (current_value st) of
              Inl e \<Rightarrow> Inl e
            | Inr v \<Rightarrow>
                Inr \<lparr>metadata = dict_setitem (metadata st) (current_tag st) v,
                     current_tag = [], current_value = [], reading_tag = True\<rparr>)
         else Inr (st\<lparr>current_value := current_value st @ [char]\<rparr>)))"

fun parse_loop :: "ustring \<Rightarrow> pstate \<Rightarrow> error + pstate" where
  "parse_loop [] st = Inr st"
| "parse_loop (char # rest) st =
     (case parse_step char st of
        Inl e \<Rightarrow> Inl e
      | Inr st' \<Rightarrow> parse_loop rest st')"

definition parse_icy_metadata :: "ustring \<Rightarrow> error + dict" where
  "parse_icy_metadata data_string =
     (case parse_loop data_string initial of
        Inl e \<Rightarrow> Inl e
      | Inr st \<Rightarrow> Inr (metadata st))"


section \<open>The stream and the reader object\<close>

text \<open>
  The response body is the list of the bytes still unread. \<open>read(amt)\<close> hands out at most
  \<open>amt\<close> bytes and fewer when the body ends first; it does not raise on a short read.
  \<open>read(None)\<close> reads to the end. What a negative amount does differs between versions of
  \<open>http.client\<close>; it is written here as reading to the end, and every statement below
  about reading assumes the amount is not negative.
\<close>

definition stream_read :: "int option \<Rightarrow> byte list \<Rightarrow> byte list \<times> byte list" where
  "stream_read amt s =
     (case amt of
        None \<Rightarrow> (s, [])
      | Some n \<Rightarrow> if n < 0 then (s, []) else (take (nat n) s, drop (nat n) s))"

text \<open>\<open>int.from_bytes(b, 'big')\<close>; of the empty byte string it is 0.\<close>

definition int_from_bytes :: "byte list \<Rightarrow> int" where
  "int_from_bytes bs = foldl (\<lambda>acc b. acc * 256 + int (unat b)) 0 bs"

text \<open>
  Python's Windows-1252 codec (module \<open>encodings.cp1252\<close>): bytes below 0x80 and from 0xA0
  stand for the code point of the same number; 0x80 to 0x9F go through the table below, in
  which 0x81, 0x8D, 0x8F, 0x90 and 0x9D are undefined. \<open>decode\<close> is called with the default
  error handler (strict), so an undefined byte raises UnicodeDecodeError.
\<close>

definition cp1252_high :: "nat option list" where
  "cp1252_high =
     [Some 0x20AC, None, Some 0x201A, Some 0x0192, Some 0x201E, Some 0x2026, Some 0x2020,
      Some 0x2021, Some 0x02C6, Some 0x2030, Some 0x0160, Some 0x2039, Some 0x0152, None,
      Some 0x017D, None, None, Some 0x2018, Some 0x2019, Some 0x201C, Some 0x201D,
      Some 0x2022, Some 0x2013, Some 0x2014, Some 0x02DC, Some 0x2122, Some 0x0161,
      Some 0x203A, Some 0x0153, None, Some 0x017E, Some 0x0178]"

definition decode_byte :: "byte \<Rightarrow> nat option" where
  "decode_byte b =
     (let n = unat b in
      if n < 0x80 \<or> 0xA0 \<le> n then Some n else cp1252_high ! (n - 0x80))"

fun decode :: "byte list \<Rightarrow> error + ustring" where
  "decode [] = Inr []"
| "decode (b # bs) =
     (case decode_byte b of
        None \<Rightarrow> Inl UnicodeDecodeError
      | Some c \<Rightarrow> (case decode bs of Inl e \<Rightarrow> Inl e | Inr cs \<Rightarrow> Inr (c # cs)))"

text \<open>\<open>.replace(b"\x00", b"")\<close>.\<close>

definition strip_nul :: "byte list \<Rightarrow> byte list" where
  "strip_nul bs = filter (\<lambda>b. b \<noteq> 0) bs"

text \<open>
  The two instance variables. Both are \<open>None\<close> after \<open>close\<close>.
\<close>

record reader =
  stream :: "byte list option"
  meta_interval :: "int option"

section \<open>__init__\<close>

text \<open>
  Header names and values come from \<open>http.client\<close>, which decodes them as ISO-8859-1:
  they are strings of eight-bit characters. \<open>lower()\<close> on such a string moves A to Z and
  the capital letters 0xC0 to 0xDE (but 0xD7, the multiplication sign) up by 32.
\<close>

definition lower_char :: "char \<Rightarrow> char" where
  "lower_char c =
     (let n = (of_char c :: nat) in
      if (65 \<le> n \<and> n \<le> 90) \<or> (192 \<le> n \<and> n \<le> 222 \<and> n \<noteq> 215)
      then char_of (n + 32) else c)"

definition lower :: "string \<Rightarrow> string" where
  "lower s = map lower_char s"

text \<open>
  \<open>int(value)\<close> on a string, base 10: white space around the number is dropped, one sign
  may lead, then decimal digits with single underscores allowed between two digits.
  Anything else raises ValueError, here \<open>None\<close>. (The interpreter's configurable limit on
  the number of digits is left out.)
\<close>

definition is_space :: "char \<Rightarrow> bool" where
  "is_space c =
     (let n = (of_char c :: nat) in (9 \<le> n \<and> n \<le> 13) \<or> n = 32 \<or> n = 0x85 \<or> n = 0xA0)"

definition is_digit :: "char \<Rightarrow> bool" where
  "is_digit c = (let n = (of_char c :: nat) in 48 \<le> n \<and> n \<le> 57)"

definition digit_val :: "char \<Rightarrow> nat" where
  "digit_val c = of_char c - 48"

fun py_digits :: "string \<Rightarrow> nat \<Rightarrow> nat option" where
  "py_digits [] acc = Some acc"
| "py_digits (c # cs) acc =
     (if is_digit c then py_digits cs (10 * acc + digit_val c)
      else if c = CHR ''_'' then
        (case cs of
           [] \<Rightarrow> None
         | d # ds \<Rightarrow> if is_digit d then py_digits ds (10 * acc + digit_val d) else None)
      else None)"

definition py_unsigned :: "string \<Rightarrow> nat option" where
  "py_unsigned s =
     (case s of
        [] \<Rightarrow> None
      | d # ds \<Rightarrow> if is_digit d then py_digits ds (digit_val d) else None)"

definition py_strip :: "string \<Rightarrow> string" where
  "py_strip s = rev (dropWhile is_space (rev (dropWhile is_space s)))"

definition py_int :: "string \<Rightarrow> int option" where
  "py_int s =
     (case py_strip s of
        [] \<Rightarrow> None
      | c # cs \<Rightarrow>
          if c = CHR ''-'' then map_option (\<lambda>n. - int n) (py_unsigned cs)
          else if c = CHR ''+'' then map_option int (py_unsigned cs)
          else map_option int (py_unsigned (c # cs)))"

text \<open>
  The loop over \<open>getheaders()\<close>: the local \<open>meta_interval\<close> is unbound (\<open>None\<close> here) until a
  matching header is converted. Every matching header is converted, in order, and a
  conversion that raises ends the constructor.
\<close>

fun read_headers :: "(string \<times> string) list \<Rightarrow> int option \<Rightarrow> error + int option" where
  "read_headers [] mi = Inr mi"
| "read_headers ((header, v) # hs) mi =
     (if lower header = ''icy-metaint'' then
        (case py_int v of
           None \<Rightarrow> Inl ValueError
         | Some n \<Rightarrow> read_headers hs (Some n))
      else read_headers hs mi)"

text \<open>
  The constructor, given what \<open>urlopen\<close> delivered: the response headers and the body.
\<close>

definition init :: "(string \<times> string) list \<Rightarrow> byte list \<Rightarrow> error + reader" where
  "init headers body =
     (case read_headers headers None of
        Inl e \<Rightarrow> Inl e
      | Inr None \<Rightarrow> Inl RuntimeError
      | Inr (Some n) \<Rightarrow> Inr \<lparr>stream = Some body, meta_interval = Some n\<rparr>)"

section \<open>close, get_metadata_once, get_next_metadata\<close>

text \<open>\<open>self._stream.close()\<close> on a closed reader is a method call on \<open>None\<close>.\<close>

definition close :: "reader \<Rightarrow> error + reader" where
  "close r =
     (case stream r of
        None \<Rightarrow> Inl AttributeError
      | Some s \<Rightarrow> Inr \<lparr>stream = None, meta_interval = None\<rparr>)"

text \<open>
  The last three lines of \<open>get_metadata_once\<close>, run on the bytes read as the block:
  drop the NUL bytes, decode, hand the text to the parser.
\<close>

definition parse_block :: "byte list \<Rightarrow> error + dict" where
  "parse_block meta_data =
     (case decode (strip_nul meta_data) of
        Inl e \<Rightarrow> Inl e
      | Inr text \<Rightarrow> parse_icy_metadata text)"

text \<open>
  One cycle. The result is the exception raised, or the value returned: \<open>None\<close> when
  \<open>meta_len\<close> is 0 (the function then falls off its end), else the parsed dict. The reader
  comes back with the stream advanced by what was read, also when an exception leaves
  the function.
\<close>

definition get_metadata_once :: "reader \<Rightarrow> (error + dict option) \<times> reader" where
  "get_metadata_once r =
     (case stream r of
        None \<Rightarrow> (Inl AttributeError, r)
      | Some s \<Rightarrow>
          (let (audio, s1) = stream_read (meta_interval r) s;
               (len_byte, s2) = stream_read (Some 1) s1;
               meta_len = int_from_bytes len_byte * 16
           in if meta_len > 0 then
                (let (meta_data, s3) = stream_read (Some meta_len) s2
                 in (case parse_block meta_data of
                       Inl e \<Rightarrow> Inl e
                     | Inr m \<Rightarrow> Inr (Some m),
                     r\<lparr>stream := Some s3\<rparr>))
              else (Inr None, r\<lparr>stream := Some s2\<rparr>)))"

text \<open>
  \<open>while result is None: result = self.get_metadata_once()\<close>. The loop has no bound, so
  the function is partial: \<open>None\<close> is "never returns".
\<close>

partial_function (option) get_next_metadata :: "reader \<Rightarrow> ((error + dict) \<times> reader) option" where
  "get_next_metadata r =
     (case get_metadata_once r of
        (Inl e, r') \<Rightarrow> Some (Inl e, r')
      | (Inr None, r') \<Rightarrow> get_next_metadata r'
      | (Inr (Some m), r') \<Rightarrow> Some (Inr m, r'))"

text \<open>
  \<open>skipped k r\<close> is the reader after \<open>k\<close> cycles that each returned \<open>None\<close>, when the
  first \<open>k\<close> cycles from \<open>r\<close> all do.
\<close>

fun skipped :: "nat \<Rightarrow> reader \<Rightarrow> reader option" where
  "skipped 0 r = Some r"
| "skipped (Suc k) r =
     (case get_metadata_once r of
        (Inr None, r') \<Rightarrow> skipped k r'
      | _ \<Rightarrow> None)"

section \<open>Properties of the parser\<close>













text \<open>
  C3. The specification says: when a \<open>;\<close> ends a value, a value with a leading and a trailing single
  quote loses one quote at each end, and a value shorter than two characters (the empty
  one of \<open>tag=;\<close> included) or without matching quotes is stored as it is, the parse never
  failing. The code tests \<open>current_value[0]\<close> with no check of the length: on \<open>tag=;\<close> the
  value is empty and the test raises IndexError, and on \<open>x=';\<close> the one quote counts as
  both the leading and the trailing one, so the empty string is stored.
\<close>

theorem parse_short_values:
  "parse_icy_metadata (ustr ''tag=;'') = Inl IndexError \<and>
   parse_icy_metadata (ustr ''x=';'') = Inr [(ustr ''x'', [])]"
  by (simp add: parse_icy_metadata_def ustr_def initial_def parse_step_def unquote_def)





section \<open>Properties of the decoding\<close>

lemma cp1252_high_length: "length cp1252_high = 32"
  by (simp add: cp1252_high_def)
lemma undefined_positions:
  "((n, None) \<in> set (enumerate 128 cp1252_high)) = (n \<in> {129, 141, 143, 144, 157})"
  by (simp add: cp1252_high_def)
lemma undefined_bytes:
  "(unat (b::byte) \<in> {129, 141, 143, 144, 157}) = (b \<in> {0x81, 0x8D, 0x8F, 0x90, 0x9D})"
  by (simp add: word_unat_eq_iff)

lemma decode_byte_None:
  "(decode_byte b = None) = (b \<in> {0x81, 0x8D, 0x8F, 0x90, 0x9D})"
proof (cases "unat b < 128 \<or> 160 \<le> unat b")
  case True
  then have "(decode_byte b = None) = (unat b \<in> {129, 141, 143, 144, 157})"
    by (auto simp: decode_byte_def)
  also have "\<dots> = (b \<in> {0x81, 0x8D, 0x8F, 0x90, 0x9D})" by (rule undefined_bytes)
  finally show ?thesis .
next
  case False
  then have k: "128 \<le> unat b" "unat b < 160" by simp_all
  have "(decode_byte b = None) = (cp1252_high ! (unat b - 128) = None)"
    using False by (simp add: decode_byte_def)
  also have "\<dots> = ((unat b, None) \<in> set (enumerate 128 cp1252_high))"
    using k by (simp add: in_set_enumerate_eq cp1252_high_length)
  also have "\<dots> = (unat b \<in> {129, 141, 143, 144, 157})" by (rule undefined_positions)
  also have "\<dots> = (b \<in> {0x81, 0x8D, 0x8F, 0x90, 0x9D})" by (rule undefined_bytes)
  finally show ?thesis .
qed
lemma decode_ok:
  "\<forall>b \<in> set bs. decode_byte b \<noteq> None \<Longrightarrow> \<exists>text. decode bs = Inr text \<and> length text = length bs"
  by (induction bs) auto
lemma decode_fails:
  "\<exists>b \<in> set bs. decode_byte b = None \<Longrightarrow> decode bs = Inl UnicodeDecodeError"
proof (induction bs)
  case Nil
  then show ?case by simp
next
  case (Cons a bs)
  show ?case
  proof (cases "decode_byte a")
    case None
    then show ?thesis by simp
  next
    case (Some c)
    with Cons.prems have "\<exists>b \<in> set bs. decode_byte b = None" by auto
    then have "decode bs = Inl UnicodeDecodeError" by (rule Cons.IH)
    with Some show ?thesis by simp
  qed
qed
lemma set_strip_nul: "set (strip_nul bs) = set bs - {0}"
  by (auto simp: strip_nul_def)

section \<open>Properties of one cycle\<close>

lemma stream_read_exact:
  "0 \<le> n \<Longrightarrow> length a = nat n \<Longrightarrow> stream_read (Some n) (a @ b) = (a, b)"
  by (simp add: stream_read_def)

lemma stream_read_short:
  "0 \<le> n \<Longrightarrow> length s \<le> nat n \<Longrightarrow> stream_read (Some n) s = (s, [])"
  by (simp add: stream_read_def)

lemma stream_read_one: "stream_read (Some 1) (b # s) = ([b], s)"
  by (simp add: stream_read_def)

lemma stream_read_one_empty: "stream_read (Some 1) [] = ([], [])"
  by (simp add: stream_read_def)

lemma int_from_bytes_simps:
  "int_from_bytes [] = 0" "int_from_bytes [b] = uint b"
  by (simp_all add: int_from_bytes_def)

lemma meta_len_nat: "nat (uint (lb::byte) * 16) = unat lb * 16"
  by (simp add: nat_mult_distrib)

lemma meta_len_pos: "(0 < uint (lb::byte) * 16) = (lb \<noteq> 0)"
  by (simp add: word_neq_0_conv word_less_def)


lemma cycle_short_audio:
  assumes "stream r = Some s" "meta_interval r = Some n" "0 \<le> n" "length s \<le> nat n"
  shows "get_metadata_once r = (Inr None, r\<lparr>stream := Some []\<rparr>)"
  using assms
  by (simp add: get_metadata_once_def stream_read_short stream_read_one_empty int_from_bytes_simps)

lemma cycle_short_body:
  assumes "stream r = Some (audio @ lb # body)" "meta_interval r = Some n"
    and "0 \<le> n" "length audio = nat n" "length body < unat lb * 16"
  shows "get_metadata_once r =
           (case parse_block body of Inl e \<Rightarrow> Inl e | Inr m \<Rightarrow> Inr (Some m),
            r\<lparr>stream := Some []\<rparr>)"
proof -
  have a: "stream_read (Some n) (audio @ lb # body) = (audio, lb # body)"
    using assms(3,4) by (rule stream_read_exact)
  have b: "stream_read (Some (uint lb * 16)) body = (body, [])"
    using assms(5) by (intro stream_read_short) (simp_all add: meta_len_nat)
  have "lb \<noteq> 0" using assms(5) by auto
  then have "0 < uint lb * 16" by (simp add: meta_len_pos)
  then show ?thesis
    by (simp add: get_metadata_once_def assms(1,2) a b stream_read_one int_from_bytes_simps)
qed

section \<open>Properties of get_next_metadata and close\<close>

lemma next_of_skipped:
  "skipped k r = Some r1 \<Longrightarrow> get_metadata_once r1 = (Inr (Some m), r') \<Longrightarrow>
   get_next_metadata r = Some (Inr m, r')"
proof (induction k arbitrary: r)
  case 0
  then show ?case by (subst get_next_metadata.simps) simp
next
  case (Suc k)
  from Suc.prems(1) obtain r2 where
    c: "get_metadata_once r = (Inr None, r2)" and s: "skipped k r2 = Some r1"
    by (auto split: prod.splits sum.splits option.splits)
  from Suc.IH [OF s Suc.prems(2)] c show ?case
    by (subst get_next_metadata.simps) simp
qed

lemma skipped_of_next:
  assumes "get_next_metadata r = Some y"
  shows "\<exists>k r1. skipped k r = Some r1 \<and>
     (case y of (Inl e, r') \<Rightarrow> get_metadata_once r1 = (Inl e, r')
              | (Inr m, r') \<Rightarrow> get_metadata_once r1 = (Inr (Some m), r'))"
proof (rule get_next_metadata.raw_induct
    [where P = "\<lambda>r y. \<exists>k r1. skipped k r = Some r1 \<and>
     (case y of (Inl e, r') \<Rightarrow> get_metadata_once r1 = (Inl e, r')
              | (Inr m, r') \<Rightarrow> get_metadata_once r1 = (Inr (Some m), r'))", OF _ assms])
  fix f :: "reader \<Rightarrow> ((error + dict) \<times> reader) option" and r y
  assume IH: "\<And>x y. f x = Some y \<Longrightarrow> \<exists>k r1. skipped k x = Some r1 \<and>
     (case y of (Inl e, r') \<Rightarrow> get_metadata_once r1 = (Inl e, r')
              | (Inr m, r') \<Rightarrow> get_metadata_once r1 = (Inr (Some m), r'))"
    and eq: "(case get_metadata_once r of
        (Inl e, r') \<Rightarrow> Some (Inl e, r')
      | (Inr None, r') \<Rightarrow> f r'
      | (Inr (Some m), r') \<Rightarrow> Some (Inr m, r')) = Some y"
  obtain res r2 where c: "get_metadata_once r = (res, r2)" by (cases "get_metadata_once r")
  show "\<exists>k r1. skipped k r = Some r1 \<and>
     (case y of (Inl e, r') \<Rightarrow> get_metadata_once r1 = (Inl e, r')
              | (Inr m, r') \<Rightarrow> get_metadata_once r1 = (Inr (Some m), r'))"
  proof (cases res)
    case (Inl e)
    with eq c have "y = (Inl e, r2)" by simp
    with c Inl have "skipped 0 r = Some r \<and>
       (case y of (Inl e, r') \<Rightarrow> get_metadata_once r = (Inl e, r')
                | (Inr m, r') \<Rightarrow> get_metadata_once r = (Inr (Some m), r'))" by simp
    then show ?thesis by blast
  next
    case (Inr v)
    show ?thesis
    proof (cases v)
      case None
      with eq c Inr have "f r2 = Some y" by simp
      from IH [OF this] obtain k r1 where
        k: "skipped k r2 = Some r1"
           "(case y of (Inl e, r') \<Rightarrow> get_metadata_once r1 = (Inl e, r')
                     | (Inr m, r') \<Rightarrow> get_metadata_once r1 = (Inr (Some m), r'))" by blast
      from k(1) c Inr None have "skipped (Suc k) r = Some r1" by simp
      with k(2) show ?thesis by blast
    next
      case (Some m)
      with eq c Inr have "y = (Inr m, r2)" by simp
      with c Inr Some have "skipped 0 r = Some r \<and>
         (case y of (Inl e, r') \<Rightarrow> get_metadata_once r = (Inl e, r')
                  | (Inr m, r') \<Rightarrow> get_metadata_once r = (Inr (Some m), r'))" by simp
      then show ?thesis by blast
    qed
  qed
qed

lemma closed_once: "stream r = None \<Longrightarrow> get_metadata_once r = (Inl AttributeError, r)"
  by (simp add: get_metadata_once_def)

lemma closed_next: "stream r = None \<Longrightarrow> get_next_metadata r = Some (Inl AttributeError, r)"
  by (subst get_next_metadata.simps) (simp add: closed_once)

lemma close_closes: "close r = Inr r' \<Longrightarrow> stream r' = None"
  by (auto simp: close_def split: option.splits)

section \<open>Properties of the constructor\<close>

lemma read_headers_append:
  "read_headers (xs @ ys) mi =
     (case read_headers xs mi of Inl e \<Rightarrow> Inl e | Inr mi' \<Rightarrow> read_headers ys mi')"
  by (induction xs arbitrary: mi) (auto split: option.splits)

lemma read_headers_other:
  "\<forall>(h, v) \<in> set hs. lower h \<noteq> ''icy-metaint'' \<Longrightarrow> read_headers hs mi = Inr mi"
  by (induction hs arbitrary: mi) auto

lemma read_headers_char:
  "read_headers hs mi =
     (let vals = map snd (filter (\<lambda>(h, v). lower h = ''icy-metaint'') hs) in
      if \<exists>v \<in> set vals. py_int v = None then Inl ValueError
      else Inr (if vals = [] then mi else py_int (last vals)))"
proof (induction hs arbitrary: mi)
  case Nil
  then show ?case by simp
next
  case (Cons p hs)
  obtain h v where p: "p = (h, v)" by (cases p)
  show ?case
  proof (cases "lower h = ''icy-metaint''")
    case False
    with p Cons.IH [of mi] show ?thesis by simp
  next
    case True
    show ?thesis
    proof (cases "py_int v")
      case None
      with p True show ?thesis by simp
    next
      case (Some n)
      with p True Cons.IH [of "Some n"] show ?thesis by (auto simp add: Let_def)
    qed
  qed
qed

lemma last_converts:
  assumes "\<not> (\<exists>v \<in> set vals. f v = None)" and "vals \<noteq> []"
  shows "\<exists>n. f (last vals) = Some n"
proof -
  from assms(2) have "last vals \<in> set vals" by (rule last_in_set)
  with assms(1) show ?thesis by (cases "f (last vals)") auto
qed

lemma init_char:
  "init headers body =
     (let vals = map snd (filter (\<lambda>(h, v). lower h = ''icy-metaint'') headers) in
      if \<exists>v \<in> set vals. py_int v = None then Inl ValueError
      else if vals = [] then Inl RuntimeError
      else Inr \<lparr>stream = Some body, meta_interval = py_int (last vals)\<rparr>)"
proof -
  define vals where "vals = map snd (filter (\<lambda>(h, v). lower h = ''icy-metaint'') headers)"
  have rh: "read_headers headers None =
      (if \<exists>v \<in> set vals. py_int v = None then Inl ValueError
       else Inr (if vals = [] then None else py_int (last vals)))"
    unfolding vals_def using read_headers_char [of headers None] by (simp only: Let_def)
  have "init headers body =
      (if \<exists>v \<in> set vals. py_int v = None then Inl ValueError
       else if vals = [] then Inl RuntimeError
       else Inr \<lparr>stream = Some body, meta_interval = py_int (last vals)\<rparr>)"
  proof (cases "\<exists>v \<in> set vals. py_int v = None")
    case True
    then show ?thesis by (simp add: init_def rh)
  next
    case False
    show ?thesis
    proof (cases "vals = []")
      case True
      with False show ?thesis by (simp add: init_def rh)
    next
      case nonempty: False
      with False obtain n where "py_int (last vals) = Some n"
        using last_converts [of vals py_int] by blast
      with False nonempty show ?thesis by (simp add: init_def rh)
    qed
  qed
  then show ?thesis unfolding vals_def by (simp only: Let_def)
qed

lemma init_one:
  assumes "lower h = ''icy-metaint''"
    and "\<forall>(h', v') \<in> set (pre @ post). lower h' \<noteq> ''icy-metaint''"
  shows "init (pre @ (h, v) # post) body =
           (case py_int v of
              None \<Rightarrow> Inl ValueError
            | Some n \<Rightarrow> Inr \<lparr>stream = Some body, meta_interval = Some n\<rparr>)"
proof -
  from assms(2) have pre: "\<forall>(h', v') \<in> set pre. lower h' \<noteq> ''icy-metaint''"
    and post: "\<forall>(h', v') \<in> set post. lower h' \<noteq> ''icy-metaint''" by auto
  show ?thesis
    using assms(1)
    by (simp add: init_def read_headers_append read_headers_other [OF pre]
        read_headers_other [OF post] split: option.splits)
qed

section \<open>The reader: framing, decoding, construction\<close>

text \<open>
  C1. The specification says: each framing step of a cycle (the audio skip, the length byte, the
  metadata body) fails with a truncation error when the stream yields fewer bytes than
  it needs. The code never compares what \<open>read\<close> returned with what it asked for, and
  raises nothing of the kind. What it does on a stream that ends early: when the stream
  ends during the audio skip or right after it, the length byte reads as the empty byte
  string, whose integer value is 0, and the cycle returns \<open>None\<close>, as it does for an
  unchanged title; when the stream ends inside the metadata body, the bytes that did
  arrive are stripped, decoded and parsed as if they were the whole block.
\<close>

theorem short_reads_are_not_detected:
  assumes "stream r = Some s" and "meta_interval r = Some n" and "0 \<le> n"
  shows "(length s \<le> nat n \<longrightarrow>
            get_metadata_once r = (Inr None, r\<lparr>stream := Some []\<rparr>)) \<and>
         (s = audio @ lb # body \<and> length audio = nat n \<and> length body < unat lb * 16 \<longrightarrow>
            get_metadata_once r =
              (case parse_block body of Inl e \<Rightarrow> Inl e | Inr m \<Rightarrow> Inr (Some m),
               r\<lparr>stream := Some []\<rparr>))"
proof (intro conjI impI)
  assume "length s \<le> nat n"
  with assms show "get_metadata_once r = (Inr None, r\<lparr>stream := Some []\<rparr>)"
    by (rule cycle_short_audio)
next
  assume h: "s = audio @ lb # body \<and> length audio = nat n \<and> length body < unat lb * 16"
  with assms(1) have a: "stream r = Some (audio @ lb # body)" by simp
  from h have b: "length audio = nat n" and c: "length body < unat lb * 16" by simp_all
  show "get_metadata_once r =
      (case parse_block body of Inl e \<Rightarrow> Inl e | Inr m \<Rightarrow> Inr (Some m),
       r\<lparr>stream := Some []\<rparr>)"
    by (rule cycle_short_body [OF a assms(2,3) b c])
qed

theorem short_reads_are_not_detected_witness:
  "get_metadata_once \<lparr>stream = Some [255, 216, 0, 1, 2], meta_interval = Some 8\<rparr> =
     (Inr None, \<lparr>stream = Some [], meta_interval = Some 8\<rparr>) \<and>
   get_metadata_once \<lparr>stream = Some ([1, 2, 3, 4] @ 2 # [97, 61, 49, 59]),
                       meta_interval = Some 4\<rparr> =
     (case parse_block [97, 61, 49, 59] of Inl e \<Rightarrow> Inl e | Inr m \<Rightarrow> Inr (Some m),
      \<lparr>stream = Some [], meta_interval = Some 4\<rparr>)"
  using short_reads_are_not_detected
          [of "\<lparr>stream = Some [255, 216, 0, 1, 2], meta_interval = Some 8\<rparr>"
              "[255, 216, 0, 1, 2]" 8]
        short_reads_are_not_detected
          [of "\<lparr>stream = Some ([1, 2, 3, 4] @ 2 # [97, 61, 49, 59]), meta_interval = Some 4\<rparr>"
              "[1, 2, 3, 4] @ 2 # [97, 61, 49, 59]" 4 "[1, 2, 3, 4]" 2 "[97, 61, 49, 59]"]
  by simp

text \<open>
  Three truncated streams with \<open>meta_interval\<close> 8: one that ends inside the audio, one
  that ends before the length byte, one that ends six bytes into a body of sixteen.
  None raises.
\<close>

theorem truncated_stream_counterexample:
  "get_metadata_once \<lparr>stream = Some [1, 2, 3], meta_interval = Some 8\<rparr> =
     (Inr None, \<lparr>stream = Some [], meta_interval = Some 8\<rparr>) \<and>
   get_metadata_once \<lparr>stream = Some [1, 2, 3, 4, 5, 6, 7, 8], meta_interval = Some 8\<rparr> =
     (Inr None, \<lparr>stream = Some [], meta_interval = Some 8\<rparr>) \<and>
   get_metadata_once
     \<lparr>stream = Some ([1, 2, 3, 4, 5, 6, 7, 8, 1] @ map of_char ''a='x';''),
      meta_interval = Some 8\<rparr> =
     (Inr (Some [(ustr ''a'', ustr ''x'')]), \<lparr>stream = Some [], meta_interval = Some 8\<rparr>)"
  by (simp add: get_metadata_once_def stream_read_def int_from_bytes_def parse_block_def
      strip_nul_def decode_byte_def parse_icy_metadata_def ustr_def initial_def
      parse_step_def unquote_def)



text \<open>
  C2. The specification says: stripping NUL bytes and decoding as Windows-1252 succeeds for every byte
  value. Python's codec leaves five bytes undefined and the code decodes in strict mode:
  the step succeeds exactly on the blocks that hold none of 0x81, 0x8D, 0x8F, 0x90, 0x9D,
  giving one code point for each byte that is not NUL, and raises UnicodeDecodeError on
  every block that holds one of them.
\<close>

theorem decode_fails_on_undefined_bytes:
  "(set bs \<inter> {0x81, 0x8D, 0x8F, 0x90, 0x9D} = {} \<longrightarrow>
      (\<exists>text. decode (strip_nul bs) = Inr text \<and> length text = length (strip_nul bs))) \<and>
   (set bs \<inter> {0x81, 0x8D, 0x8F, 0x90, 0x9D} \<noteq> {} \<longrightarrow>
      decode (strip_nul bs) = Inl UnicodeDecodeError)"
proof (intro conjI impI)
  assume none: "set bs \<inter> {0x81, 0x8D, 0x8F, 0x90, 0x9D} = {}"
  show "\<exists>text. decode (strip_nul bs) = Inr text \<and> length text = length (strip_nul bs)"
  proof (rule decode_ok, rule ballI)
    fix b assume "b \<in> set (strip_nul bs)"
    then have "b \<in> set bs" by (simp add: set_strip_nul)
    with none have "b \<notin> {0x81, 0x8D, 0x8F, 0x90, 0x9D}" by blast
    then show "decode_byte b \<noteq> None" by (simp only: decode_byte_None not_False_eq_True)
  qed
next
  assume "set bs \<inter> {0x81, 0x8D, 0x8F, 0x90, 0x9D} \<noteq> {}"
  then obtain b where b: "b \<in> set bs" "b \<in> {0x81, 0x8D, 0x8F, 0x90, 0x9D}" by blast
  then have "decode_byte b = None" by (simp only: decode_byte_None)
  moreover from b(2) have "b \<noteq> 0" by auto
  with b(1) have "b \<in> set (strip_nul bs)" by (simp add: set_strip_nul)
  ultimately have "\<exists>b \<in> set (strip_nul bs). decode_byte b = None" by blast
  then show "decode (strip_nul bs) = Inl UnicodeDecodeError" by (rule decode_fails)
qed

theorem decode_fails_on_undefined_bytes_witness:
  "(\<exists>text. decode (strip_nul [0x80, 0, 0x41]) = Inr text \<and>
           length text = length (strip_nul [0x80, 0, 0x41])) \<and>
   decode (strip_nul [0x41, 0x90, 0]) = Inl UnicodeDecodeError"
  using decode_fails_on_undefined_bytes [of "[0x80, 0, 0x41]"]
        decode_fails_on_undefined_bytes [of "[0x41, 0x90, 0]"]
  by simp

text \<open>A block whose first byte is 0x81 makes the cycle raise UnicodeDecodeError.\<close>

theorem undefined_byte_counterexample:
  "decode (strip_nul [0x81]) = Inl UnicodeDecodeError \<and>
   get_metadata_once
     \<lparr>stream = Some ([1, 2, 3, 4, 5, 6, 7, 8, 1] @ 0x81 # replicate 15 0),
      meta_interval = Some 8\<rparr> =
     (Inl UnicodeDecodeError, \<lparr>stream = Some [], meta_interval = Some 8\<rparr>)"
  by (simp add: get_metadata_once_def stream_read_def int_from_bytes_def parse_block_def
      strip_nul_def decode_byte_def cp1252_high_def)

text \<open>
  C4. The specification says: the dict returned by \<open>get_next_metadata\<close> is never empty. The loop tests
  \<open>result is None\<close>, and an empty dict is not \<open>None\<close>. What holds: \<open>get_next_metadata\<close>
  returns a dict exactly when, after some number of cycles that each returned \<open>None\<close>,
  a cycle returns a dict, and it returns that dict and the reader as that cycle left it;
  the dict may be empty (a block without a complete \<open>tag=value;\<close> pair parses to
  \<open>{}\<close>).
\<close>

theorem get_next_metadata_first_result:
  "(get_next_metadata r = Some (Inr m, r')) =
   (\<exists>k r1. skipped k r = Some r1 \<and> get_metadata_once r1 = (Inr (Some m), r'))"
proof
  assume "get_next_metadata r = Some (Inr m, r')"
  from skipped_of_next [OF this]
  show "\<exists>k r1. skipped k r = Some r1 \<and> get_metadata_once r1 = (Inr (Some m), r')"
    by simp
next
  assume "\<exists>k r1. skipped k r = Some r1 \<and> get_metadata_once r1 = (Inr (Some m), r')"
  then show "get_next_metadata r = Some (Inr m, r')"
    using next_of_skipped by blast
qed

theorem get_next_metadata_first_result_witness:
  "get_next_metadata
     \<lparr>stream = Some ([1, 2, 0] @ [3, 4, 1] @ map of_char ''a='x';'' @ replicate 10 0),
      meta_interval = Some 2\<rparr> =
   Some (Inr [(ustr ''a'', ustr ''x'')], \<lparr>stream = Some [], meta_interval = Some 2\<rparr>)"
proof -
  let ?r1 = "\<lparr>stream = Some ([3, 4, 1] @ map of_char ''a='x';'' @ replicate 10 0),
               meta_interval = Some 2\<rparr>"
  have "skipped 1 \<lparr>stream = Some ([1, 2, 0] @ [3, 4, 1] @ map of_char ''a='x';'' @ replicate 10 0),
      meta_interval = Some 2\<rparr> = Some ?r1"
    by (simp add: get_metadata_once_def stream_read_def int_from_bytes_def)
  moreover have "get_metadata_once ?r1 =
      (Inr (Some [(ustr ''a'', ustr ''x'')]), \<lparr>stream = Some [], meta_interval = Some 2\<rparr>)"
    by (simp add: get_metadata_once_def stream_read_def int_from_bytes_def parse_block_def
        strip_nul_def decode_byte_def parse_icy_metadata_def ustr_def initial_def
        parse_step_def unquote_def)
  ultimately have "\<exists>k r1. skipped k \<lparr>stream = Some ([1, 2, 0] @ [3, 4, 1] @ map of_char ''a='x';'' @ replicate 10 0),
      meta_interval = Some 2\<rparr> = Some r1 \<and> get_metadata_once r1 =
      (Inr (Some [(ustr ''a'', ustr ''x'')]), \<lparr>stream = Some [], meta_interval = Some 2\<rparr>)"
    by blast
  then show ?thesis by (simp only: get_next_metadata_first_result)
qed

text \<open>
  A block that holds the text \<open>abc\<close> and NUL padding, with no \<open>=\<close> and no \<open>;\<close>: the cycle
  returns the empty dict, and so does \<open>get_next_metadata\<close>.
\<close>

theorem empty_mapping_counterexample:
  "get_next_metadata
     \<lparr>stream = Some ([1, 2, 3, 4, 5, 6, 7, 8, 1] @ [97, 98, 99] @ replicate 13 0),
      meta_interval = Some 8\<rparr> =
   Some (Inr [], \<lparr>stream = Some [], meta_interval = Some 8\<rparr>)"
  by (subst get_next_metadata.simps)
     (simp add: get_metadata_once_def stream_read_def int_from_bytes_def parse_block_def
        strip_nul_def decode_byte_def parse_icy_metadata_def initial_def parse_step_def)

text \<open>
  C6. After \<open>close\<close>, \<open>get_metadata_once\<close> and \<open>get_next_metadata\<close> both fail, at once and
  on every call (the reader is left as it was): the stream attribute is \<open>None\<close>, and the
  call of \<open>read\<close> on it raises AttributeError, which is the error the code has for a
  closed reader.
\<close>

theorem closed_reader_fails:
  "close r = Inr r' \<Longrightarrow>
   get_metadata_once r' = (Inl AttributeError, r') \<and>
   get_next_metadata r' = Some (Inl AttributeError, r')"
  by (simp add: close_closes closed_once closed_next)

theorem closed_reader_fails_witness:
  "close \<lparr>stream = Some [1, 2, 3], meta_interval = Some 8\<rparr> =
     Inr \<lparr>stream = None, meta_interval = None\<rparr> \<and>
   get_metadata_once \<lparr>stream = None, meta_interval = None\<rparr> =
     (Inl AttributeError, \<lparr>stream = None, meta_interval = None\<rparr>) \<and>
   get_next_metadata \<lparr>stream = None, meta_interval = None\<rparr> =
     Some (Inl AttributeError, \<lparr>stream = None, meta_interval = None\<rparr>)"
proof -
  have c: "close \<lparr>stream = Some [1, 2, 3], meta_interval = Some 8\<rparr> =
     Inr \<lparr>stream = None, meta_interval = None\<rparr>"
    by (simp add: close_def)
  from closed_reader_fails [OF c] c show ?thesis by simp
qed

text \<open>
  C5. The specification says: a metadata-interval value that is not an integer or not positive fails
  construction with the error of the missing header, and a positive one is stored. The
  code converts the value with \<open>int\<close> and checks nothing else. For a response with one
  metadata-interval header: when the conversion fails, construction fails with the
  ValueError of \<open>int\<close> (not the RuntimeError raised for a missing header); when it
  succeeds, the integer is stored as the interval, whatever its sign.
\<close>

theorem init_converts_without_validating:
  "lower h = ''icy-metaint'' \<and> (\<forall>(h', v') \<in> set (pre @ post). lower h' \<noteq> ''icy-metaint'') \<longrightarrow>
   init (pre @ (h, v) # post) body =
     (case py_int v of
        None \<Rightarrow> Inl ValueError
      | Some n \<Rightarrow> Inr \<lparr>stream = Some body, meta_interval = Some n\<rparr>)"
  using init_one by blast

theorem init_converts_without_validating_witness:
  "init ([(''Content-Type'', ''audio/mpeg'')] @ (''Icy-MetaInt'', ''16000'') # []) [1, 2] =
     (case py_int ''16000'' of
        None \<Rightarrow> Inl ValueError
      | Some n \<Rightarrow> Inr \<lparr>stream = Some [1, 2], meta_interval = Some n\<rparr>)"
  using init_converts_without_validating
          [of "''Icy-MetaInt''" "[(''Content-Type'', ''audio/mpeg'')]" "[]" "''16000''" "[1, 2]"]
  by (simp add: lower_def lower_char_def char_of_eq_iff)

text \<open>
  The values \<open>0\<close> and \<open>-16\<close> are stored; \<open>abc\<close> raises ValueError, where a response with
  no such header raises RuntimeError.
\<close>

theorem non_positive_interval_counterexample:
  "init [(''icy-metaint'', ''0'')] [] = Inr \<lparr>stream = Some [], meta_interval = Some 0\<rparr> \<and>
   init [(''icy-metaint'', ''-16'')] [] = Inr \<lparr>stream = Some [], meta_interval = Some (- 16)\<rparr> \<and>
   init [(''icy-metaint'', ''abc'')] [] = Inl ValueError \<and>
   init [] [] = Inl RuntimeError"
  by (simp add: init_def lower_def lower_char_def char_of_eq_iff py_int_def py_strip_def
      is_space_def py_unsigned_def is_digit_def digit_val_def)

text \<open>
  C9. The specification says: with several metadata-interval headers construction succeeds and stores
  the value of the last one, the earlier ones being ignored. The code converts every
  matching header in turn. So: when the value of any matching header is not an integer,
  construction fails with ValueError, also when a later header is well formed; when
  all of them are integers, the stored interval is the last one's; with no matching
  header construction fails with RuntimeError.
\<close>

theorem init_last_header_wins:
  "init headers body =
     (let vals = map snd (filter (\<lambda>(h, v). lower h = ''icy-metaint'') headers) in
      if \<exists>v \<in> set vals. py_int v = None then Inl ValueError
      else if vals = [] then Inl RuntimeError
      else Inr \<lparr>stream = Some body, meta_interval = py_int (last vals)\<rparr>)"
  by (rule init_char)

theorem init_last_header_wins_witness:
  "init [(''Content-Type'', ''audio/mpeg''), (''icy-metaint'', ''8''), (''Icy-MetaInt'', ''16'')] [] =
     Inr \<lparr>stream = Some [], meta_interval = Some 16\<rparr>"
  by (simp add: init_last_header_wins lower_def lower_char_def char_of_eq_iff py_int_def
      py_strip_def is_space_def py_unsigned_def is_digit_def digit_val_def)

text \<open>Two headers, the first one malformed: construction fails.\<close>

theorem malformed_earlier_header_counterexample:
  "init [(''icy-metaint'', ''abc''), (''icy-metaint'', ''16'')] [] = Inl ValueError"
  by (simp add: init_def lower_def lower_char_def char_of_eq_iff py_int_def py_strip_def
      is_space_def py_unsigned_def is_digit_def digit_val_def)

end
